theory Spec2Isabelle
  imports Complex_Main
begin

section \<open>Data model of \<^verbatim>\<open>frontend/src/create.tsx\<close>\<close>

text \<open>
  A JavaScript string is a sequence of UTF-16 code units; the model writes it as a
  \<^typ>\<open>string\<close>, one \<^typ>\<open>char\<close> per code unit, so that \<open>length\<close>, offsets and
  \<open>substring\<close> count what the source counts. The two characters the step template
  language gives a meaning to are the dollar sign and the backslash.
\<close>

abbreviation dollar :: char where
  "dollar \<equiv> CHR ''$''"

abbreviation backslash :: char where
  "backslash \<equiv> CHR 0x5C"

text \<open>
  The seven unit constants \<open>mL\<close>, \<open>g\<close>, \<open>tsp\<close>, \<open>celsius\<close>, \<open>oz\<close>, \<open>inch\<close> and \<open>blank\<close>,
  the members of the union type \<open>Unit\<close>.
\<close>

datatype Unit = Unit_mL | Unit_g | Unit_tsp | Unit_celsius | Unit_oz | Unit_inch | Unit_blank

text \<open>
  \<open>Amount.value\<close> is a JavaScript \<open>number\<close>. No function modelled here reads it, so it
  is carried as a \<^typ>\<open>real\<close>.
\<close>

record Amount =
  "value" :: real
  unit :: Unit

text \<open>
  \<open>type Expression = { toExprContent(): string }\<close>. The closures that \<open>amount\<close> and
  \<open>ingr\<close> build are pure and take no argument, so the model stores the string they return.
  \<open>Ingredient\<close> has the field too, which the record extension expresses. Every type of
  the source has a field \<open>id\<close>, and two have \<open>name\<close> or \<open>title\<close>: a field of a record is a
  constant of the theory, so these carry the name of their type.
\<close>

record Expression =
  toExprContent :: string

record Ingredient = Expression +
  ingredient_id :: string
  name :: string
  amount :: "Amount list"
  "notes" :: "string option"

record Tool =
  tool_id :: string
  tool_name :: string
  description :: "string option"
  icon :: "string option"

record Step =
  step_id :: string
  "text" :: string
  stepExpressions :: "Expression list"
  tools :: "Tool list"

text \<open>
  \<open>Brick\<close> and \<open>BrickConnection\<close> refer to each other through the union
  \<open>Brick | BrickConnection\<close>, which the \<open>type\<close> field discriminates: the tag is the
  constructor of \<open>BrickOrConn\<close>. \<open>parent: ... | null\<close> is an option.
\<close>

datatype Brick =
  Brick (parent: "BrickOrConn option") (brick_id: string) (title: "string option")
        (steps: "Step list") (outputs: "Ingredient list")
and BrickConnection =
  BrickConnection (inputs: "BrickOrConn list") (connectionMethod: string)
and BrickOrConn =
  IsBrick Brick
| IsConnection BrickConnection

record Recipe =
  recipe_title :: string
  recipe_description :: "string option"
  author :: "string option"
  tail :: Brick

section \<open>The constructors\<close>

text \<open>
  \<open>step\<close>, \<open>brick\<close> and \<open>ingr\<close> call \<open>uuid()\<close>, and \<open>brick\<close> calls \<open>dashify\<close> of an
  external package: the fresh identifier and the slug function are parameters of the
  model. \<open>tools || []\<close> and \<open>outputs || []\<close> replace a missing argument by the empty list;
  \<open>ingr\<close> takes one amount or an array of them; \<open>title ? ... : ...\<close> is false of a
  missing title and of the empty string. The helper \<open>amount\<close> formats a \<open>number\<close> as
  text and is left out: a step sees its result through \<open>toExprContent\<close> only.
\<close>

definition ingr :: "string \<Rightarrow> string \<Rightarrow> Amount + Amount list \<Rightarrow> string option \<Rightarrow> Ingredient" where
  "ingr uuid nm amt nts =
     \<lparr>toExprContent = nm, ingredient_id = uuid, name = nm,
      amount = (case amt of Inl a \<Rightarrow> [a] | Inr as \<Rightarrow> as), notes = nts\<rparr>"

definition step :: "string \<Rightarrow> string \<Rightarrow> Expression list \<Rightarrow> Tool list option \<Rightarrow> Step" where
  "step uuid txt exprs tls =
     \<lparr>step_id = uuid, text = txt, stepExpressions = exprs,
      tools = (case tls of None \<Rightarrow> [] | Some ts \<Rightarrow> ts)\<rparr>"


definition connect :: "BrickOrConn list \<Rightarrow> string \<Rightarrow> BrickConnection" where
  "connect inps method = BrickConnection inps method"

section \<open>The templating engine: \<open>StepView.renderText\<close>\<close>

subsection \<open>The JavaScript built-ins it calls\<close>

definition isDigit :: "char \<Rightarrow> bool" where
  "isDigit c = (c \<in> set ''0123456789'')"

definition digitVal :: "char \<Rightarrow> int" where
  "digitVal c = int (of_char c) - 48"

text \<open>
  \<open>parseInt\<close> on a string that starts with decimal digits: the value of the longest
  prefix of digits; \<open>None\<close> is \<open>NaN\<close>, the result when there is no digit to read. Leading
  white space, a sign and a radix prefix, which the built-in also accepts, are not
  modelled: \<open>renderText\<close> calls it on the digits of a match only.
\<close>

definition parseInt :: "string \<Rightarrow> int option" where
  "parseInt s =
     (case takeWhile isDigit s of
        [] \<Rightarrow> None
      | ds \<Rightarrow> Some (foldl (\<lambda>n c. 10 * n + digitVal c) 0 ds))"

text \<open>
  \<open>String.prototype.substring\<close>: both arguments are clamped to the length and swapped
  when the first is the larger one; with one argument the end is the length.
\<close>

definition substring :: "string \<Rightarrow> nat \<Rightarrow> nat \<Rightarrow> string" where
  "substring s a b =
     (let a' = min a (length s); b' = min b (length s);
          lo = min a' b'; hi = max a' b'
      in take (hi - lo) (drop lo s))"

definition substring_from :: "string \<Rightarrow> nat \<Rightarrow> string" where
  "substring_from s a = drop (min a (length s)) s"

text \<open>
  One element of the iterator that \<open>text.matchAll(re)\<close> returns: \<open>match.index\<close>, whose
  TypeScript type is \<open>number | undefined\<close>, and \<open>match[0]\<close>.
\<close>

record Match =
  index :: "nat option"
  matchText :: string

text \<open>
  \<open>text.matchAll(/(?<!\\)\$\d+?/g)\<close>. The pattern is a dollar sign that no backslash
  precedes, followed by \<open>\d+?\<close>: the quantifier is lazy and nothing follows it, so it
  stops after one digit, and every match is two code units long. The matcher of a global
  regular expression tries the offsets from left to right and resumes at the end of the
  last match; the lookbehind reads the text itself, so after a match the character before
  the next offset is the digit just consumed. \<open>pos\<close> is the offset of the first character
  of the remaining text, \<open>prev\<close> the character before it.
\<close>

fun matchAll_from :: "nat \<Rightarrow> char option \<Rightarrow> string \<Rightarrow> Match list" where
  "matchAll_from pos prev [] = []"
| "matchAll_from pos prev [c] = []"
| "matchAll_from pos prev (c # d # cs) =
     (if c = dollar \<and> prev \<noteq> Some backslash \<and> isDigit d
      then \<lparr>index = Some pos, matchText = [c, d]\<rparr> # matchAll_from (pos + 2) (Some d) cs
      else matchAll_from (pos + 1) (Some c) (d # cs))"

definition matchAll :: "string \<Rightarrow> Match list" where
  "matchAll txt = matchAll_from 0 None txt"

subsection \<open>The loop\<close>

text \<open>
  The three ways the loop body can throw: \<open>Error('missing index in regexp match')\<close>,
  \<open>Error('attempted to reference out-of-bounds ingredient')\<close>, and the \<open>TypeError\<close> of
  calling \<open>toExprContent\<close> on \<open>undefined\<close>, which is what \<open>stepExpressions[NaN]\<close> is (both
  comparisons of the bounds check are false on \<open>NaN\<close>).
\<close>

datatype error = MissingIndex | OutOfBounds | TypeError

text \<open>
  The body of \<open>for (const match of matches)\<close>, with the two variables it assigns,
  \<open>parts\<close> and \<open>cursorPos\<close>. \<open>!index\<close> is true of \<open>undefined\<close> and of \<open>0\<close>.
\<close>

fun renderLoop ::
  "string \<Rightarrow> Expression list \<Rightarrow> Match list \<Rightarrow> string list \<Rightarrow> nat \<Rightarrow>
   error + (string list \<times> nat)" where
  "renderLoop txt exprs [] parts cursorPos = Inr (parts, cursorPos)"
| "renderLoop txt exprs (m # ms) parts cursorPos =
     (case index m of
        None \<Rightarrow> Inl MissingIndex
      | Some i \<Rightarrow>
          if i = 0 then Inl MissingIndex
          else
            (case parseInt (substring_from (matchText m) 1) of
               None \<Rightarrow> Inl TypeError
             | Some expressionIndex \<Rightarrow>
                 if expressionIndex < 0 \<or> expressionIndex \<ge> int (length exprs)
                 then Inl OutOfBounds
                 else renderLoop txt exprs ms
                        (parts @ [substring txt cursorPos i,
                                  toExprContent (exprs ! nat expressionIndex)])
                        (i + length (matchText m))))"

definition renderText :: "Step \<Rightarrow> error + string" where
  "renderText stp =
     (case renderLoop (text stp) (stepExpressions stp) (matchAll (text stp)) [] 0 of
        Inl e \<Rightarrow> Inl e
      | Inr (parts, cursorPos) \<Rightarrow>
          Inr (concat (parts @ [substring_from (text stp) cursorPos])))"

section \<open>The views: \<open>StepView\<close>, \<open>BrickView\<close>, \<open>BrickConnectionView\<close>\<close>

text \<open>
  What a view renders is a tree of elements: a tag, the key of its \<open>className\<close> in
  \<open>styles\<close>, and its children; a string in braces is a text node. A child that is \<open>null\<close>
  renders nothing and a fragment contributes its children, so neither appears in the
  tree. The \<open>key\<close> of a \<open>StepView\<close> is not part of what is rendered.
\<close>

datatype Element =
  Tag (tag: string) (className: string) (children: "Element list")
| TextNode string

text \<open>
  \<open>xs.map(f)\<close> over children whose rendering may throw: the children are rendered in
  array order and the first exception ends the rendering.
\<close>

fun mapE :: "('a \<Rightarrow> error + 'b) \<Rightarrow> 'a list \<Rightarrow> error + 'b list" where
  "mapE f [] = Inr []"
| "mapE f (x # xs) =
     (case f x of
        Inl e \<Rightarrow> Inl e
      | Inr y \<Rightarrow> (case mapE f xs of Inl e \<Rightarrow> Inl e | Inr ys \<Rightarrow> Inr (y # ys)))"

lemma mapE_cong [fundef_cong]:
  "xs = ys \<Longrightarrow> (\<And>x. x \<in> set ys \<Longrightarrow> f x = h x) \<Longrightarrow> mapE f xs = mapE h ys"
  by (induction ys arbitrary: xs) (auto split: sum.splits)

definition StepView :: "Step \<Rightarrow> error + Element" where
  "StepView stp =
     (case renderText stp of
        Inl e \<Rightarrow> Inl e
      | Inr s \<Rightarrow> Inr (Tag ''li'' ''step'' [TextNode s]))"

text \<open>
  \<open>BrickOrConnection\<close> chooses the view by the \<open>type\<close> tag of its input.
  \<open>brick.parent && (...)\<close> renders the parent and the connection line when the parent is
  not \<open>null\<close>.
\<close>

fun BrickView :: "Brick \<Rightarrow> error + Element"
and BrickConnectionView :: "BrickConnection \<Rightarrow> error + Element"
and BrickOrConnection :: "BrickOrConn \<Rightarrow> error + Element" where
  "BrickView (Brick par bid ttl stps outs) =
     (case (case par of
              None \<Rightarrow> Inr []
            | Some p \<Rightarrow>
                (case BrickOrConnection p of
                   Inl e \<Rightarrow> Inl e
                 | Inr up \<Rightarrow> Inr [up, Tag ''div'' ''brickParentConnectionLine'' []])) of
        Inl e \<Rightarrow> Inl e
      | Inr upstream \<Rightarrow>
          (case mapE StepView stps of
             Inl e \<Rightarrow> Inl e
           | Inr lis \<Rightarrow>
               Inr (Tag ''div'' ''brickWithParent''
                      (upstream @ [Tag ''div'' ''brick'' [Tag ''ul'' [] lis]]))))"
| "BrickConnectionView (BrickConnection inps method) =
     (case mapE BrickOrConnection inps of
        Inl e \<Rightarrow> Inl e
      | Inr rendered \<Rightarrow>
          Inr (Tag ''div'' ''brickConnection''
                 [Tag ''div'' ''brickConnectionInputs'' rendered, TextNode method]))"
| "BrickOrConnection (IsConnection c) = BrickConnectionView c"
| "BrickOrConnection (IsBrick b) = BrickView b"

definition RecipeView :: "Recipe \<Rightarrow> error + Element" where
  "RecipeView recipe =
     (case BrickView (tail recipe) of
        Inl e \<Rightarrow> Inl e
      | Inr t \<Rightarrow> Inr (Tag ''div'' [] [t]))"

section \<open>Notions the properties are stated with\<close>


text \<open>
  A placeholder token in the words of the specification: a dollar sign at some offset,
  a digit right after it, and no backslash right before it.
\<close>

definition placeholder_at :: "string \<Rightarrow> nat \<Rightarrow> bool" where
  "placeholder_at t i =
     (i + 1 < length t \<and> t ! i = dollar \<and> isDigit (t ! (i + 1)) \<and>
      (i = 0 \<or> t ! (i - 1) \<noteq> backslash))"

definition has_placeholder :: "string \<Rightarrow> bool" where
  "has_placeholder t = (\<exists>i \<in> {0..<length t}. placeholder_at t i)"

text \<open>The text begins with a dollar sign and a digit.\<close>

fun starts_placeholder :: "string \<Rightarrow> bool" where
  "starts_placeholder (c # d # cs) = (c = dollar \<and> isDigit d)"
| "starts_placeholder _ = False"

text \<open>
  The loop of \<open>renderText\<close> read as one pass over the text: at each offset either a
  match starts, and the loop body runs on it, or the character is copied. It is a device
  of the proofs below, which show that \<open>renderText\<close> computes it.
\<close>

fun expand_from :: "Expression list \<Rightarrow> nat \<Rightarrow> char option \<Rightarrow> string \<Rightarrow> error + string" where
  "expand_from es pos prev [] = Inr []"
| "expand_from es pos prev [c] = Inr [c]"
| "expand_from es pos prev (c # d # cs) =
     (if c = dollar \<and> prev \<noteq> Some backslash \<and> isDigit d
      then if pos = 0 then Inl MissingIndex
           else if digitVal d \<ge> int (length es) then Inl OutOfBounds
           else (case expand_from es (pos + 2) (Some d) cs of
                   Inl e \<Rightarrow> Inl e
                 | Inr out \<Rightarrow> Inr (toExprContent (es ! nat (digitVal d)) @ out))
      else (case expand_from es (pos + 1) (Some c) (d # cs) of
              Inl e \<Rightarrow> Inl e
            | Inr out \<Rightarrow> Inr (c # out)))"

section \<open>The loop of \<open>renderText\<close> as one pass over the text\<close>

lemma isDigit_cases:
  "isDigit d \<longleftrightarrow> d = CHR ''0'' \<or> d = CHR ''1'' \<or> d = CHR ''2'' \<or> d = CHR ''3'' \<or> d = CHR ''4'' \<or>
     d = CHR ''5'' \<or> d = CHR ''6'' \<or> d = CHR ''7'' \<or> d = CHR ''8'' \<or> d = CHR ''9''"
  by (auto simp: isDigit_def)

lemma digitVal_range: "isDigit d \<Longrightarrow> 0 \<le> digitVal d \<and> digitVal d \<le> 9"
  by (auto simp: isDigit_cases digitVal_def)

lemma parseInt_single: "isDigit d \<Longrightarrow> parseInt (substring_from [c, d] (Suc 0)) = Some (digitVal d)"
  by (simp add: parseInt_def substring_from_def)

lemma substring_take_drop:
  "a \<le> b \<Longrightarrow> b \<le> length s \<Longrightarrow> substring s a b = take (b - a) (drop a s)"
  by (simp add: substring_def Let_def min_def max_def)

lemma renderLoop_expand:
  "txt = pre @ rest \<Longrightarrow> pos = length pre \<Longrightarrow> cur \<le> pos \<Longrightarrow>
   (case renderLoop txt es (matchAll_from pos prev rest) parts cur of
      Inl e \<Rightarrow> Inl e
    | Inr (ps, c) \<Rightarrow> Inr (concat (ps @ [substring_from txt c])))
   = (case expand_from es pos prev rest of
        Inl e \<Rightarrow> Inl e
      | Inr out \<Rightarrow> Inr (concat parts @ take (pos - cur) (drop cur txt) @ out))"
proof (induction pos prev rest arbitrary: pre parts cur rule: matchAll_from.induct)
  case (1 pos prev)
  then show ?case by (simp add: substring_from_def)
next
  case (2 pos prev c)
  then show ?case by (simp add: substring_from_def min_def)
next
  case (3 pos prev c d cs)
  show ?case
  proof (cases "c = dollar \<and> prev \<noteq> Some backslash \<and> isDigit d")
    case True
    note m = this
    show ?thesis
    proof (cases "pos = 0 \<or> digitVal d \<ge> int (length es)")
      case True
      with m show ?thesis using digitVal_range[of d] by (auto simp: parseInt_single)
    next
      case False
      have sub: "substring txt cur pos = take (pos - cur) (drop cur txt)"
        using 3 by (intro substring_take_drop) auto
      have sp: "txt = (pre @ [c, d]) @ cs" "pos + 2 = length (pre @ [c, d])" "pos + 2 \<le> pos + 2"
        using 3(3,4) by simp_all
      note ih = "3.IH"(1)[OF m sp,
          of "parts @ [substring txt cur pos, toExprContent (es ! nat (digitVal d))]"]
      have l: "renderLoop txt es (matchAll_from pos prev (c # d # cs)) parts cur =
                 renderLoop txt es (matchAll_from (pos + 2) (Some d) cs)
                   (parts @ [substring txt cur pos, toExprContent (es ! nat (digitVal d))]) (pos + 2)"
        using m False digitVal_range[of d] by (simp add: parseInt_single)
      have r: "expand_from es pos prev (c # d # cs) =
                 (case expand_from es (pos + 2) (Some d) cs of
                    Inl e \<Rightarrow> Inl e
                  | Inr out \<Rightarrow> Inr (toExprContent (es ! nat (digitVal d)) @ out))"
        using m False by simp
      show ?thesis unfolding l r ih
        by (cases "expand_from es (pos + 2) (Some d) cs") (simp_all add: sub)
    qed
  next
    case False
    have nth: "txt ! pos = c" "pos < length txt" using 3 by (simp_all add: nth_append)
    have tk: "take (Suc pos - cur) (drop cur txt) = take (pos - cur) (drop cur txt) @ [c]"
    proof -
      have "take (Suc (pos - cur)) (drop cur txt) = take (pos - cur) (drop cur txt) @ [drop cur txt ! (pos - cur)]"
        using nth 3(5) by (intro take_Suc_conv_app_nth) simp
      moreover have "drop cur txt ! (pos - cur) = c" using nth 3(5) by simp
      moreover have "Suc pos - cur = Suc (pos - cur)" using 3(5) by simp
      ultimately show ?thesis by simp
    qed
    have sp: "txt = (pre @ [c]) @ d # cs" "pos + 1 = length (pre @ [c])" "cur \<le> pos + 1"
      using 3(3,4,5) by simp_all
    note ih = "3.IH"(2)[OF False sp, of parts]
    have l: "matchAll_from pos prev (c # d # cs) = matchAll_from (pos + 1) (Some c) (d # cs)"
      using False by auto
    have r: "expand_from es pos prev (c # d # cs) =
               (case expand_from es (pos + 1) (Some c) (d # cs) of
                  Inl e \<Rightarrow> Inl e | Inr out \<Rightarrow> Inr (c # out))"
      using False by auto
    show ?thesis unfolding l r ih
      by (cases "expand_from es (pos + 1) (Some c) (d # cs)") (simp_all add: tk)
  qed
qed

lemma renderText_expand: "renderText stp = expand_from (stepExpressions stp) 0 None (text stp)"
  using renderLoop_expand[of "text stp" "[]" "text stp" 0 0 "stepExpressions stp" None "[]"]
  by (simp add: renderText_def matchAll_def split: sum.splits prod.splits)

section \<open>What \<open>matchAll\<close> finds\<close>

lemma matchAll_from_sound:
  "m \<in> set (matchAll_from pos prev t) \<Longrightarrow>
   \<exists>i. index m = Some (pos + i) \<and> i + 1 < length t \<and> t ! i = dollar \<and> isDigit (t ! (i + 1)) \<and>
       (if i = 0 then prev \<noteq> Some backslash else t ! (i - 1) \<noteq> backslash) \<and>
       matchText m = [dollar, t ! (i + 1)]"
proof (induction pos prev t rule: matchAll_from.induct)
  case (3 pos prev c d cs)
  show ?case
  proof (cases "c = dollar \<and> prev \<noteq> Some backslash \<and> isDigit d")
    case True
    note hit = this
    show ?thesis
    proof (cases "m = \<lparr>index = Some pos, matchText = [c, d]\<rparr>")
      case True
      with hit show ?thesis by (intro exI[of _ 0]) simp
    next
      case False
      with hit 3(3) have "m \<in> set (matchAll_from (pos + 2) (Some d) cs)" by simp
      from "3.IH"(1)[OF hit this] obtain i where i:
        "index m = Some (pos + 2 + i)" "i + 1 < length cs" "cs ! i = dollar"
        "isDigit (cs ! (i + 1))"
        "if i = 0 then Some d \<noteq> Some backslash else cs ! (i - 1) \<noteq> backslash"
        "matchText m = [dollar, cs ! (i + 1)]"
        by blast
      have "(c # d # cs) ! (i + 2 - 1) \<noteq> backslash"
        using i(5) by (cases i) (auto simp: nth_Cons')
      with i show ?thesis by (intro exI[of _ "i + 2"]) (simp add: add.assoc)
    qed
  next
    case False
    with 3(3) have "m \<in> set (matchAll_from (pos + 1) (Some c) (d # cs))" by auto
    from "3.IH"(2)[OF False this] obtain i where i:
      "index m = Some (pos + 1 + i)" "i + 1 < length (d # cs)" "(d # cs) ! i = dollar"
      "isDigit ((d # cs) ! (i + 1))"
      "if i = 0 then Some c \<noteq> Some backslash else (d # cs) ! (i - 1) \<noteq> backslash"
      "matchText m = [dollar, (d # cs) ! (i + 1)]"
      by blast
    have "(c # d # cs) ! (i + 1 - 1) \<noteq> backslash"
      using i(5) by (cases i) (auto simp: nth_Cons')
    with i show ?thesis by (intro exI[of _ "i + 1"]) (simp add: add.assoc)
  qed
qed simp_all

lemma matchAll_sound:
  assumes "m \<in> set (matchAll t)"
  obtains i where "index m = Some i" "placeholder_at t i" "matchText m = [dollar, t ! (i + 1)]"
proof -
  from matchAll_from_sound[OF assms[unfolded matchAll_def]] obtain i where
    "index m = Some (0 + i)" "i + 1 < length t" "t ! i = dollar" "isDigit (t ! (i + 1))"
    "if i = 0 then None \<noteq> Some backslash else t ! (i - 1) \<noteq> backslash"
    "matchText m = [dollar, t ! (i + 1)]"
    by blast
  then show thesis
    by (intro that[of i]) (auto simp: placeholder_at_def split: if_splits)
qed

lemma no_placeholder_no_match: "\<not> has_placeholder t \<Longrightarrow> matchAll t = []"
proof (rule ccontr)
  assume np: "\<not> has_placeholder t" and "matchAll t \<noteq> []"
  then obtain m where "m \<in> set (matchAll t)" by (cases "matchAll t") auto
  then obtain i where "placeholder_at t i" by (rule matchAll_sound)
  then have "i \<in> {0..<length t} \<and> placeholder_at t i" by (simp add: placeholder_at_def)
  with np show False unfolding has_placeholder_def by blast
qed

section \<open>The pass, piece by piece\<close>

lemma expand_from_pos:
  "0 < pos \<Longrightarrow> 0 < pos' \<Longrightarrow> expand_from es pos prev t = expand_from es pos' prev t"
proof (induction es pos prev t arbitrary: pos' rule: expand_from.induct)
  case (3 es pos prev c d cs)
  show ?case
  proof (cases "c = dollar \<and> prev \<noteq> Some backslash \<and> isDigit d")
    case True
    with 3(3,4) "3.IH"(1)[of "pos' + 2"] show ?thesis by auto
  next
    case False
    with "3.IH"(2)[of "pos' + 1"] show ?thesis by auto
  qed
qed simp_all

lemma expand_from_start:
  "\<not> starts_placeholder t \<Longrightarrow> expand_from es pos prev t = expand_from es pos' prev' t"
proof (cases t rule: starts_placeholder.cases)
  case (1 c d cs)
  assume "\<not> starts_placeholder t"
  with 1 have "\<not> (c = dollar \<and> isDigit d)" by simp
  with 1 show ?thesis using expand_from_pos[of "pos + 1" "pos' + 1" es "Some c" "d # cs"] by auto
qed simp_all

lemma expand_from_append:
  "\<not> (pre \<noteq> [] \<and> last pre = dollar \<and> rest \<noteq> [] \<and> isDigit (hd rest)) \<Longrightarrow>
   expand_from es pos prev (pre @ rest) =
     (case expand_from es pos prev pre of
        Inl e \<Rightarrow> Inl e
      | Inr a \<Rightarrow>
          (case expand_from es (pos + length pre) (if pre = [] then prev else Some (last pre)) rest of
             Inl e \<Rightarrow> Inl e
           | Inr b \<Rightarrow> Inr (a @ b)))"
proof (induction es pos prev pre rule: expand_from.induct)
  case (1 es pos prev)
  then show ?case by (simp split: sum.splits)
next
  case (2 es pos prev c)
  then show ?case by (cases rest) (auto split: sum.splits)
next
  case (3 es pos prev c d cs)
  let ?prev' = "if c # d # cs = [] then prev else Some (last (c # d # cs))"
  show ?case
  proof (cases "c = dollar \<and> prev \<noteq> Some backslash \<and> isDigit d")
    case True
    note hit = this
    then have "d \<noteq> dollar" by (auto simp: isDigit_def)
    then have ns: "\<not> (cs \<noteq> [] \<and> last cs = dollar \<and> rest \<noteq> [] \<and> isDigit (hd rest))"
      using 3(3) by auto
    show ?thesis
    proof (cases "pos = 0 \<or> digitVal d \<ge> int (length es)")
      case True
      with hit show ?thesis by auto
    next
      case False
      from False have nz: "pos \<noteq> 0" "\<not> int (length es) \<le> digitVal d" by simp_all
      note ih = "3.IH"(1)[OF hit nz ns]
      have pv: "(if cs = [] then Some d else Some (last cs)) = ?prev'" by simp
      have ln: "pos + 2 + length cs = pos + length (c # d # cs)" by simp
      have l: "expand_from es pos prev ((c # d # cs) @ rest) =
                 (case expand_from es (pos + 2) (Some d) (cs @ rest) of
                    Inl e \<Rightarrow> Inl e
                  | Inr out \<Rightarrow> Inr (toExprContent (es ! nat (digitVal d)) @ out))"
        using hit False by simp
      have r: "expand_from es pos prev (c # d # cs) =
                 (case expand_from es (pos + 2) (Some d) cs of
                    Inl e \<Rightarrow> Inl e
                  | Inr out \<Rightarrow> Inr (toExprContent (es ! nat (digitVal d)) @ out))"
        using hit False by simp
      show ?thesis unfolding l r ih pv ln
        by (simp split: sum.splits)
    qed
  next
    case False
    have ns: "\<not> (d # cs \<noteq> [] \<and> last (d # cs) = dollar \<and> rest \<noteq> [] \<and> isDigit (hd rest))"
      using 3(3) by auto
    note ih = "3.IH"(2)[OF False ns]
    have pv: "(if d # cs = [] then Some c else Some (last (d # cs))) = ?prev'" by simp
    have ln: "pos + 1 + length (d # cs) = pos + length (c # d # cs)" by simp
    have l: "expand_from es pos prev ((c # d # cs) @ rest) =
               (case expand_from es (pos + 1) (Some c) ((d # cs) @ rest) of
                  Inl e \<Rightarrow> Inl e | Inr out \<Rightarrow> Inr (c # out))"
      using False by auto
    have r: "expand_from es pos prev (c # d # cs) =
               (case expand_from es (pos + 1) (Some c) (d # cs) of
                  Inl e \<Rightarrow> Inl e | Inr out \<Rightarrow> Inr (c # out))"
      using False by auto
    show ?thesis unfolding l r ih pv ln
      by (simp split: sum.splits)
  qed
qed

section \<open>What \<open>renderText\<close> does around a piece of literal text\<close>

lemma expand_from_no_MissingIndex: "0 < pos \<Longrightarrow> expand_from es pos prev t \<noteq> Inl MissingIndex"
  by (induction es pos prev t rule: expand_from.induct) (auto split: sum.splits)

lemma expand_from_no_TypeError: "expand_from es pos prev t \<noteq> Inl TypeError"
  by (induction es pos prev t rule: expand_from.induct) (auto split: sum.splits)

lemma renderText_MissingIndex_iff:
  "renderText stp = Inl MissingIndex \<longleftrightarrow> starts_placeholder (text stp)"
proof (cases "starts_placeholder (text stp)")
  case True
  then show ?thesis
    by (cases "text stp" rule: starts_placeholder.cases) (simp_all add: renderText_expand)
next
  case False
  from expand_from_start[OF this, of "stepExpressions stp" 0 None 1 None]
  show ?thesis using False expand_from_no_MissingIndex[of 1] by (simp add: renderText_expand)
qed

lemma renderText_no_TypeError: "renderText stp \<noteq> Inl TypeError"
  by (simp add: renderText_expand expand_from_no_TypeError)

lemma renderText_no_match: "matchAll (text stp) = [] \<Longrightarrow> renderText stp = Inr (text stp)"
  by (simp add: renderText_def substring_from_def)

lemma renderText_split:
  assumes "text stp = pre @ rest"
    and "\<not> (pre \<noteq> [] \<and> last pre = dollar \<and> rest \<noteq> [] \<and> isDigit (hd rest))"
    and "\<not> starts_placeholder rest"
  shows "renderText stp =
           (case renderText (stp\<lparr>text := pre\<rparr>) of
              Inl e \<Rightarrow> Inl e
            | Inr a \<Rightarrow>
                (case renderText (stp\<lparr>text := rest\<rparr>) of
                   Inl e \<Rightarrow> Inl e
                 | Inr b \<Rightarrow> Inr (a @ b)))"
proof -
  let ?es = "stepExpressions stp"
  have whole: "renderText stp = expand_from ?es 0 None (pre @ rest)"
    by (simp add: renderText_expand assms(1))
  have left: "renderText (stp\<lparr>text := pre\<rparr>) = expand_from ?es 0 None pre"
    by (simp add: renderText_expand)
  have right: "renderText (stp\<lparr>text := rest\<rparr>) = expand_from ?es 0 None rest"
    by (simp add: renderText_expand)
  have shift: "expand_from ?es (0 + length pre) (if pre = [] then None else Some (last pre)) rest =
                 expand_from ?es 0 None rest"
    by (rule expand_from_start[OF assms(3)])
  show ?thesis
    unfolding whole left right expand_from_append[OF assms(2), of ?es 0 None] shift ..
qed

lemma renderText_escaped:
  assumes "isDigit d"
  shows "renderText (stp\<lparr>text := backslash # dollar # d # post\<rparr>) =
           (case renderText (stp\<lparr>text := d # post\<rparr>) of
              Inl e \<Rightarrow> Inl e
            | Inr b \<Rightarrow> Inr (backslash # dollar # b))"
proof -
  from assms have nd: "d \<noteq> dollar" by (auto simp: isDigit_def)
  then have ns: "\<not> starts_placeholder (d # post)" by (cases post) simp_all
  have "expand_from (stepExpressions stp) 0 None (backslash # dollar # d # post) =
          (case expand_from (stepExpressions stp) (Suc (Suc 0)) (Some dollar) (d # post) of
             Inl e \<Rightarrow> Inl e
           | Inr b \<Rightarrow> Inr (backslash # dollar # b))"
    by (simp split: sum.splits)
  with expand_from_start[OF ns, of "stepExpressions stp" "Suc (Suc 0)" "Some dollar" 0 None]
  show ?thesis by (simp add: renderText_expand)
qed

lemma renderText_literal_first:
  assumes "\<not> starts_placeholder (c # t)"
  shows "case renderText (stp\<lparr>text := c # t\<rparr>) of
           Inl e \<Rightarrow> e = OutOfBounds
         | Inr b \<Rightarrow> take 1 b = [c]"
proof (cases t)
  case Nil
  then show ?thesis by (simp add: renderText_expand)
next
  case (Cons d cs)
  with assms have "\<not> (c = dollar \<and> isDigit d)" by simp
  then have eq: "expand_from (stepExpressions stp) 0 None (c # d # cs) =
               (case expand_from (stepExpressions stp) 1 (Some c) (d # cs) of
                  Inl e \<Rightarrow> Inl e
                | Inr b \<Rightarrow> Inr (c # b))"
    by auto
  show ?thesis
  proof (cases "expand_from (stepExpressions stp) 1 (Some c) (d # cs)")
    case (Inl e)
    with expand_from_no_MissingIndex[of 1 "stepExpressions stp" "Some c" "d # cs"]
      expand_from_no_TypeError[of "stepExpressions stp" 1 "Some c" "d # cs"]
    have "e = OutOfBounds" by (cases e) simp_all
    with Inl eq Cons show ?thesis by (simp add: renderText_expand)
  next
    case (Inr b)
    with eq Cons show ?thesis by (simp add: renderText_expand)
  qed
qed

text \<open>
  A placeholder that does not stand at offset 0: the text before it is rendered, then
  the index is checked against the number of expressions, and the content of the
  expression is followed by the rendering of what comes after the digit.
\<close>

lemma expand_from_digit_first:
  assumes "isDigit d" and "0 < pos"
  shows "expand_from es 0 None (d # post) =
           (case expand_from es pos (Some d) post of
              Inl e \<Rightarrow> Inl e
            | Inr b \<Rightarrow> Inr (d # b))"
proof (cases post)
  case Nil
  then show ?thesis by simp
next
  case (Cons p ps)
  from assms(1) have "d \<noteq> dollar" by (auto simp: isDigit_def)
  then have "expand_from es 0 None (d # p # ps) =
               (case expand_from es (0 + 1) (Some d) (p # ps) of
                  Inl e \<Rightarrow> Inl e
                | Inr b \<Rightarrow> Inr (d # b))"
    by simp
  with expand_from_pos[of "0 + 1" pos es "Some d" "p # ps"] assms(2) Cons
  show ?thesis by simp
qed

lemma renderText_placeholder_inside:
  assumes whole_text: "text stp = pre @ dollar # d # post"
    and pre: "pre \<noteq> []" "last pre \<noteq> backslash"
    and d: "isDigit d"
  shows "renderText stp =
           (case renderText (stp\<lparr>text := pre\<rparr>) of
              Inl e \<Rightarrow> Inl e
            | Inr a \<Rightarrow>
                if int (length (stepExpressions stp)) \<le> digitVal d then Inl OutOfBounds
                else
                  (case renderText (stp\<lparr>text := d # post\<rparr>) of
                     Inl e \<Rightarrow> Inl e
                   | Inr b \<Rightarrow>
                       Inr (a @ toExprContent (stepExpressions stp ! nat (digitVal d)) @ tl b)))"
proof -
  let ?es = "stepExpressions stp"
  let ?n = "length pre + 2"
  have whole: "renderText stp = expand_from ?es 0 None (pre @ dollar # d # post)"
    by (simp add: renderText_expand whole_text)
  have left: "renderText (stp\<lparr>text := pre\<rparr>) = expand_from ?es 0 None pre"
    by (simp add: renderText_expand)
  have right: "renderText (stp\<lparr>text := d # post\<rparr>) =
                 (case expand_from ?es ?n (Some d) post of
                    Inl e \<Rightarrow> Inl e
                  | Inr b \<Rightarrow> Inr (d # b))"
    using expand_from_digit_first[OF d, of ?n ?es post] by (simp add: renderText_expand)
  have app: "expand_from ?es 0 None (pre @ dollar # d # post) =
               (case expand_from ?es 0 None pre of
                  Inl e \<Rightarrow> Inl e
                | Inr a \<Rightarrow>
                    (case expand_from ?es (0 + length pre) (if pre = [] then None else Some (last pre))
                            (dollar # d # post) of
                       Inl e \<Rightarrow> Inl e
                     | Inr b \<Rightarrow> Inr (a @ b)))"
    by (rule expand_from_append) (simp add: isDigit_def)
  have here: "expand_from ?es (0 + length pre) (if pre = [] then None else Some (last pre))
                (dollar # d # post) =
              (if int (length ?es) \<le> digitVal d then Inl OutOfBounds
               else (case expand_from ?es ?n (Some d) post of
                       Inl e \<Rightarrow> Inl e
                     | Inr out \<Rightarrow> Inr (toExprContent (?es ! nat (digitVal d)) @ out)))"
    using pre d by simp
  show ?thesis
    unfolding whole left right app here
    by (cases "expand_from ?es 0 None pre"; cases "expand_from ?es ?n (Some d) post") simp_all
qed

section \<open>The properties of the templating engine\<close>

text \<open>Unfolding these evaluates \<open>renderText\<close> on a concrete step.\<close>

lemmas eval_defs = renderText_def step_def matchAll_def isDigit_def parseInt_def substring_def
  substring_from_def digitVal_def

text \<open>
  C1: every placeholder \<open>$i\<close> with a valid index is replaced by the content of expression
  \<open>i\<close>, the literal text around it kept, also when the placeholder stands at offset 0 of the
  text. At offset 0 the code does otherwise: \<open>match.index\<close> is \<open>0\<close>, \<open>!index\<close> is true, and
  the step \<open>$0 until browned\<close> with the one expression \<open>butter\<close> is not rendered as
  \<open>butter until browned\<close>: rendering throws \<open>missing index in regexp match\<close>.
\<close>

theorem renderText_placeholder_at_offset_0:
  "renderText (step ''s1'' ''$0 until browned'' [\<lparr>toExprContent = ''butter''\<rparr>] None) =
     Inl MissingIndex"
  by (simp add: eval_defs)

text \<open>
  C2: the whole run of digits after the dollar sign is the index. The code reads one digit:
  with thirteen expressions \<open>A\<close> to \<open>M\<close>, \<open>$12\<close> is not replaced by expression 12, which is
  \<open>M\<close>, but by expression 1, which is \<open>B\<close>, and the \<open>2\<close> is copied as literal text.
\<close>

theorem renderText_two_digit_index:
  "matchAll ''Add $12'' = [\<lparr>index = Some 4, matchText = ''$1''\<rparr>] \<and>
   renderText (step ''s1'' ''Add $12''
     (map (\<lambda>c. \<lparr>toExprContent = [c]\<rparr>) ''ABCDEFGHIJKLM'') None) = Inr ''Add B2''"
  by (simp add: eval_defs)

text \<open>
  C3: the error for a placeholder without an index is not raised when every placeholder
  found has digits to parse. In the step \<open>$0\<close> the one match has the digit \<open>0\<close>, which
  \<open>parseInt\<close> reads as 0, a valid index into the one expression; the code throws
  \<open>missing index in regexp match\<close> all the same, since the match starts at offset 0.
\<close>

theorem renderText_MissingIndex_on_indexed_token:
  "matchAll ''$0'' = [\<lparr>index = Some 0, matchText = ''$0''\<rparr>] \<and>
   parseInt (substring_from ''$0'' 1) = Some 0 \<and>
   renderText (step ''s1'' ''$0'' [\<lparr>toExprContent = ''butter''\<rparr>] None) = Inl MissingIndex"
  by (simp add: eval_defs)

text \<open>
  C5: a placeholder whose index is not below the number of expressions makes rendering fail
  with the out-of-bounds error. \<open>Add $5\<close> with two expressions does; \<open>$5\<close> with the same
  two expressions fails with \<open>missing index in regexp match\<close> instead, the check of the
  match offset coming first in the loop body.
\<close>

theorem renderText_out_of_bounds_at_offset_0:
  "renderText (step ''s1'' ''$5'' [\<lparr>toExprContent = ''sugar''\<rparr>, \<lparr>toExprContent = ''eggs''\<rparr>] None)
     = Inl MissingIndex \<and>
   renderText (step ''s1'' ''Add $5'' [\<lparr>toExprContent = ''sugar''\<rparr>, \<lparr>toExprContent = ''eggs''\<rparr>] None)
     = Inl OutOfBounds"
  by (simp add: eval_defs)

text \<open>
  C6: a dollar sign and digit right after a backslash are no placeholder. Wherever
  \<open>\$d\<close> stands in a text, no match starts at its dollar sign; rendering the text is
  rendering what precedes it, then the backslash and the dollar sign unchanged, then
  rendering the rest from the digit on, which begins with that digit; and it fails only
  where rendering one of the two parts fails.
\<close>

theorem escaped_placeholder_literal:
  assumes "isDigit d" and "text stp = pre @ backslash # dollar # d # post"
  shows "(\<forall>m \<in> set (matchAll (text stp)). index m \<noteq> Some (length pre + 1)) \<and>
         renderText stp =
           (case renderText (stp\<lparr>text := pre\<rparr>) of
              Inl e \<Rightarrow> Inl e
            | Inr a \<Rightarrow>
                (case renderText (stp\<lparr>text := d # post\<rparr>) of
                   Inl e \<Rightarrow> Inl e
                 | Inr b \<Rightarrow> Inr (a @ backslash # dollar # b))) \<and>
         (\<forall>b. renderText (stp\<lparr>text := d # post\<rparr>) = Inr b \<longrightarrow> take 1 b = [d])"
proof (intro conjI ballI allI impI)
  fix m assume "m \<in> set (matchAll (text stp))"
  then obtain i where i: "index m = Some i" "placeholder_at (text stp) i"
    by (rule matchAll_sound)
  show "index m \<noteq> Some (length pre + 1)"
  proof
    assume "index m = Some (length pre + 1)"
    with i have "placeholder_at (pre @ backslash # dollar # d # post) (length pre + 1)"
      by (simp add: assms(2))
    then show False by (simp add: placeholder_at_def nth_append)
  qed
next
  have "renderText stp =
          (case renderText (stp\<lparr>text := pre\<rparr>) of
             Inl e \<Rightarrow> Inl e
           | Inr a \<Rightarrow>
               (case renderText (stp\<lparr>text := backslash # dollar # d # post\<rparr>) of
                  Inl e \<Rightarrow> Inl e
                | Inr b \<Rightarrow> Inr (a @ b)))"
    by (rule renderText_split[OF assms(2)]) (simp_all add: isDigit_def)
  then show "renderText stp =
           (case renderText (stp\<lparr>text := pre\<rparr>) of
              Inl e \<Rightarrow> Inl e
            | Inr a \<Rightarrow>
                (case renderText (stp\<lparr>text := d # post\<rparr>) of
                   Inl e \<Rightarrow> Inl e
                 | Inr b \<Rightarrow> Inr (a @ backslash # dollar # b)))"
    unfolding renderText_escaped[OF assms(1)] by (simp split: sum.splits)
next
  fix b assume b: "renderText (stp\<lparr>text := d # post\<rparr>) = Inr b"
  from assms(1) have "d \<noteq> dollar" by (auto simp: isDigit_def)
  then have "\<not> starts_placeholder (d # post)" by (cases post) simp_all
  from renderText_literal_first[OF this, of stp] b show "take 1 b = [d]" by simp
qed

theorem escaped_placeholder_literal_witness:
  "isDigit CHR ''5'' \<and>
   renderText (step ''s1'' (''Costs '' @ [backslash] @ ''$5 per $0'') [\<lparr>toExprContent = ''egg''\<rparr>] None) =
     Inr (''Costs '' @ [backslash] @ ''$5 per egg'')"
  using escaped_placeholder_literal
    [of "CHR ''5''" "step ''s1'' (''Costs '' @ [backslash] @ ''$5 per $0'') [\<lparr>toExprContent = ''egg''\<rparr>] None"
        "''Costs ''" "'' per $0''"]
  by (simp add: eval_defs)

text \<open>
  C7: a step whose text has no placeholder token (no dollar sign that has a digit right
  after it and no backslash right before it) renders as its text.
\<close>

theorem renderText_identity_without_placeholder:
  "\<not> has_placeholder (text stp) \<Longrightarrow> renderText stp = Inr (text stp)"
  by (rule renderText_no_match) (rule no_placeholder_no_match)

theorem renderText_identity_without_placeholder_witness:
  "\<not> has_placeholder (''Bake 10 min. 5$ or '' @ [backslash] @ ''$1'') \<and>
   renderText (step ''s1'' (''Bake 10 min. 5$ or '' @ [backslash] @ ''$1'') [] None) =
     Inr (''Bake 10 min. 5$ or '' @ [backslash] @ ''$1'')"
proof -
  have h: "\<not> has_placeholder (''Bake 10 min. 5$ or '' @ [backslash] @ ''$1'')"
    by (simp add: has_placeholder_def placeholder_at_def isDigit_def atLeastLessThan_upt nth_Cons')
  from renderText_identity_without_placeholder
         [of "step ''s1'' (''Bake 10 min. 5$ or '' @ [backslash] @ ''$1'') [] None"] h
  show ?thesis by (simp add: step_def)
qed



section \<open>The properties of the constructors and the views\<close>








text \<open>
  C4 as the specification states it: \<open>connect\<close> with no inputs fails, and every
  connection has at least one input. The code has no such check: \<open>connect([], 'mix')\<close>
  is a connection with no inputs, and it renders.
\<close>

theorem connect_empty_inputs_counterexample:
  "connect [] ''mix'' = BrickConnection [] ''mix'' \<and>
   length (inputs (connect [] ''mix'')) = 0 \<and>
   BrickConnectionView (connect [] ''mix'') =
     Inr (Tag ''div'' ''brickConnection'' [Tag ''div'' ''brickConnectionInputs'' [], TextNode ''mix''])"
  by (simp add: connect_def)

text \<open>
  C4, amended: \<open>connect\<close> never fails; the connection it returns has the inputs and the
  method it was given, whatever the number of inputs, and a connection without inputs
  renders as an empty list of inputs followed by the method.
\<close>

theorem connect_keeps_inputs:
  "inputs (connect inps method) = inps \<and> connectionMethod (connect inps method) = method \<and>
   BrickConnectionView (connect [] method) =
     Inr (Tag ''div'' ''brickConnection'' [Tag ''div'' ''brickConnectionInputs'' [], TextNode method])"
  by (simp add: connect_def)

end
